theory Spec2Isabelle
  imports Complex_Main "HOL-Library.Sublist"
begin

section \<open>The schema form of azure-tenancy-hub\<close>

text \<open>
  A shallow embedding of \<^verbatim>\<open>src/components/schema-form/SchemaForm.tsx\<close>: the schema type
  resolver, the default value synthesizer, the classification and the change handlers of
  the object editor, the change handlers of the array editor, the dispatch between the
  editors and the controls of the primitive editor with their change handlers.

  The change handlers build new JavaScript objects and arrays from the ones they received,
  so values live in an explicit store: an object or an array is a cell of the store and a
  value that is an object or an array is a reference to its cell. A handler takes the store
  and returns the store it leaves behind together with the value it passes to its
  \<^verbatim>\<open>onChange\<close> callback.
\<close>

subsection \<open>Numbers, values and the store\<close>

text \<open>
  A JavaScript number is NaN, an infinity or a finite value. The model keeps the value of a
  finite number as a rational (every finite double is one) and leaves rounding to the
  built-in functions that create numbers from text, which are parameters of the model
  (\<open>builtins\<close> below). No function of the source tells \<open>-0\<close> from \<open>0\<close>.
\<close>

datatype number = NaN | PosInfinity | NegInfinity | Finite rat

type_synonym addr = nat

datatype val =
    JUndefined
  | JNull
  | JBool bool
  | JNum number
  | JStr string
  | JRef addr

text \<open>
  A cell holds the own enumerable properties of an object, or the elements of an array.
  The order of the keys of a value object is observed by no function modelled here, so the
  properties of an object are a map.
\<close>

datatype cell = Object "string \<rightharpoonup> val" | Array "val list"

type_synonym store = "cell list"

definition lookup :: "store \<Rightarrow> addr \<Rightarrow> cell option" where
  "lookup h a = (if a < length h then Some (h ! a) else None)"

text \<open>An object or array literal allocates a fresh cell; no cell is ever overwritten.\<close>

definition alloc :: "store \<Rightarrow> cell \<Rightarrow> store \<times> val" where
  "alloc h c = (h @ [c], JRef (length h))"

text \<open>\<^verbatim>\<open>String(index)\<close> of an array index: its decimal digits.\<close>

definition digit :: "nat \<Rightarrow> char" where
  "digit n = ''0123456789'' ! n"

fun decimal :: "nat \<Rightarrow> string" where
  "decimal n = (if n < 10 then [digit n] else decimal (n div 10) @ [digit (n mod 10)])"

declare decimal.simps [simp del]

text \<open>
  A property name is an array index when it is the decimal form of a number below
  \<open>2^32 - 1\<close>. \<open>digitValue\<close> is the place of a character among the digits (10 for any other
  character, which no decimal form contains).
\<close>

definition digitValue :: "char \<Rightarrow> nat" where
  "digitValue c = length (takeWhile (\<lambda>d. d \<noteq> c) ''0123456789'')"

definition arrayIndex :: "string \<Rightarrow> nat option" where
  "arrayIndex k =
     (let n = foldl (\<lambda>a c. 10 * a + digitValue c) 0 k
      in if decimal n = k \<and> n < 4294967295 then Some n else None)"

text \<open>
  \<^verbatim>\<open>Object.entries(o)\<close>, for the properties of \<open>o\<close> in the order in which they were added
  to it: the properties whose names are array indices come first, in ascending order of
  the index, and the others follow in the order in which they were added.
\<close>

definition Object_entries :: "(string \<times> 'a) list \<Rightarrow> (string \<times> 'a) list" where
  "Object_entries ps =
     sort_key (\<lambda>(k, _). case arrayIndex k of Some n \<Rightarrow> n | None \<Rightarrow> 0)
       (filter (\<lambda>(k, _). arrayIndex k \<noteq> None) ps)
     @ filter (\<lambda>(k, _). arrayIndex k = None) ps"

text \<open>The own enumerable properties of an array: its elements under their index keys.\<close>

definition index_props :: "val list \<Rightarrow> (string \<rightharpoonup> val)" where
  "index_props xs = map_of (zip (map decimal [0..<length xs]) xs)"

text \<open>
  The built-in functions whose results depend on floating point: \<^verbatim>\<open>parseInt(s, 10)\<close>,
  \<^verbatim>\<open>parseFloat(s)\<close> and \<^verbatim>\<open>String(n)\<close> of a number \<open>n\<close>.
\<close>

record builtins =
  parseInt :: "string \<Rightarrow> number"
  parseFloat :: "string \<Rightarrow> number"
  numberToString :: "number \<Rightarrow> string"

definition isNaN :: "number \<Rightarrow> bool" where
  "isNaN n = (n = NaN)"

subsection \<open>Schemas\<close>

text \<open>
  \<^verbatim>\<open>interface JsonSchema\<close>, with the fields that the functions modelled here read. An
  absent field is \<open>None\<close>. \<open>s_properties\<close> is the properties of \<^verbatim>\<open>schema.properties\<close> in the
  order in which they were added to the object, which for a schema read from JSON is the
  order of their declaration; an object has each name once. The titles, descriptions and
  \<^verbatim>\<open>required\<close> marks only label the controls and are left out, as are \<^verbatim>\<open>minimum\<close> and
  \<^verbatim>\<open>maximum\<close>, which are handed to the number input unread.
\<close>

datatype type_hint = TypeName string | TypeList "string list"

datatype enum_literal = LStr string | LNum number | LBool bool

datatype JsonSchema = JsonSchema
  (s_type: "type_hint option")
  (s_properties: "(string \<times> JsonSchema) list option")
  (s_items: "JsonSchema option")
  (s_enum: "enum_literal list option")
  (s_default: "val option")
  (s_maxLength: "number option")
  (s_format: "string option")

text \<open>
  \<^verbatim>\<open>getSchemaType\<close>. \<^verbatim>\<open>if (schema.type)\<close> fails for the empty string and holds for every
  array; the first entry of an empty array is \<^verbatim>\<open>undefined\<close>, which is \<open>None\<close> here.
\<close>

definition truthy_type :: "type_hint option \<Rightarrow> bool" where
  "truthy_type t =
     (case t of None \<Rightarrow> False | Some (TypeName n) \<Rightarrow> n \<noteq> '''' | Some (TypeList _) \<Rightarrow> True)"

definition getSchemaType :: "JsonSchema \<Rightarrow> string option" where
  "getSchemaType schema =
     (if truthy_type (s_type schema) then
        (case s_type schema of
           Some (TypeList ts) \<Rightarrow> (case ts of [] \<Rightarrow> None | t # _ \<Rightarrow> Some t)
         | Some (TypeName t) \<Rightarrow> Some t
         | None \<Rightarrow> None)
      else if s_properties schema \<noteq> None then Some ''object''
      else if s_items schema \<noteq> None then Some ''array''
      else if s_enum schema \<noteq> None then Some ''string''
      else Some ''string'')"

subsection \<open>The default value synthesizer\<close>

text \<open>
  \<^verbatim>\<open>getDefaultValue\<close>. Reading an absent field gives \<^verbatim>\<open>undefined\<close>. A default that is
  present is returned as it is (a reference, when it is an object or an array); \<^verbatim>\<open>{}\<close>
  and \<^verbatim>\<open>[]\<close> are fresh cells.
\<close>

definition field :: "val option \<Rightarrow> val" where
  "field f = (case f of None \<Rightarrow> JUndefined | Some v \<Rightarrow> v)"

definition getDefaultValue :: "store \<Rightarrow> JsonSchema \<Rightarrow> store \<times> val" where
  "getDefaultValue h schema =
     (if field (s_default schema) \<noteq> JUndefined then (h, field (s_default schema))
      else
        (let type = getSchemaType schema in
         if type = Some ''object'' then alloc h (Object Map.empty)
         else if type = Some ''array'' then alloc h (Array [])
         else if type = Some ''boolean'' then (h, JBool False)
         else if type = Some ''number'' \<or> type = Some ''integer'' then (h, JNum (Finite 0))
         else (h, JStr '''')))"

subsection \<open>The object editor\<close>

text \<open>
  \<^verbatim>\<open>ObjectField\<close>. \<open>objValue\<close> is the own enumerable properties of
  \<^verbatim>\<open>typeof value === "object" && value !== null ? value : {}\<close>, which is what the handler
  spreads; an array is an object to \<^verbatim>\<open>typeof\<close>. \<open>child\<close> is \<^verbatim>\<open>objValue[propName]\<close>; a
  property that the object inherits from its prototype reads as a function or as the
  prototype object, which every editor treats as it treats \<^verbatim>\<open>undefined\<close>.
\<close>

definition objValue :: "store \<Rightarrow> val \<Rightarrow> (string \<rightharpoonup> val)" where
  "objValue h value =
     (case value of
        JRef a \<Rightarrow>
          (case lookup h a of
             Some (Object m) \<Rightarrow> m
           | Some (Array xs) \<Rightarrow> index_props xs
           | None \<Rightarrow> Map.empty)
      | _ \<Rightarrow> Map.empty)"

definition child :: "store \<Rightarrow> val \<Rightarrow> string \<Rightarrow> val" where
  "child h value propName = field (objValue h value propName)"

text \<open>
  \<^verbatim>\<open>const properties = schema.properties ?? {}\<close> and
  \<^verbatim>\<open>const entries = Object.entries(properties)\<close>
\<close>

definition properties :: "JsonSchema \<Rightarrow> (string \<times> JsonSchema) list" where
  "properties schema = (case s_properties schema of None \<Rightarrow> [] | Some ps \<Rightarrow> ps)"

definition entries :: "JsonSchema \<Rightarrow> (string \<times> JsonSchema) list" where
  "entries schema = Object_entries (properties schema)"

definition simpleFields :: "JsonSchema \<Rightarrow> (string \<times> JsonSchema) list" where
  "simpleFields schema =
     filter (\<lambda>(_, propSchema).
       let type = getSchemaType propSchema in type \<noteq> Some ''object'' \<and> type \<noteq> Some ''array'')
     (entries schema)"

definition complexFields :: "JsonSchema \<Rightarrow> (string \<times> JsonSchema) list" where
  "complexFields schema =
     filter (\<lambda>(_, propSchema).
       let type = getSchemaType propSchema in type = Some ''object'' \<or> type = Some ''array'')
     (entries schema)"

text \<open>\<^verbatim>\<open>onChange({ ...objValue, [propName]: propValue })\<close>\<close>

definition handlePropertyChange :: "store \<Rightarrow> val \<Rightarrow> string \<Rightarrow> val \<Rightarrow> store \<times> val" where
  "handlePropertyChange h value propName propValue =
     alloc h (Object ((objValue h value)(propName \<mapsto> propValue)))"

subsection \<open>The array editor\<close>

text \<open>
  \<^verbatim>\<open>ArrayField\<close>. \<open>arrayValue\<close> is the elements of
  \<^verbatim>\<open>Array.isArray(value) ? value : []\<close>; \<open>itemSchema\<close> is
  \<^verbatim>\<open>schema.items ?? { type: "string" }\<close>.
\<close>

definition arrayValue :: "store \<Rightarrow> val \<Rightarrow> val list" where
  "arrayValue h value =
     (case value of
        JRef a \<Rightarrow> (case lookup h a of Some (Array xs) \<Rightarrow> xs | _ \<Rightarrow> [])
      | _ \<Rightarrow> [])"

text \<open>\<^verbatim>\<open>Array.isArray(value)\<close>\<close>

definition isArray :: "store \<Rightarrow> val \<Rightarrow> bool" where
  "isArray h value =
     (case value of
        JRef a \<Rightarrow> (case lookup h a of Some (Array xs) \<Rightarrow> True | _ \<Rightarrow> False)
      | _ \<Rightarrow> False)"

definition itemSchema :: "JsonSchema \<Rightarrow> JsonSchema" where
  "itemSchema schema =
     (case s_items schema of
        Some s \<Rightarrow> s
      | None \<Rightarrow> JsonSchema (Some (TypeName ''string'')) None None None None None None)"

text \<open>\<^verbatim>\<open>onChange([...arrayValue, getDefaultValue(itemSchema)])\<close>\<close>

definition handleAdd :: "store \<Rightarrow> JsonSchema \<Rightarrow> val \<Rightarrow> store \<times> val" where
  "handleAdd h schema value =
     (let (h1, defaultValue) = getDefaultValue h (itemSchema schema)
      in alloc h1 (Array (arrayValue h value @ [defaultValue])))"

text \<open>\<^verbatim>\<open>onChange(arrayValue.filter((_, i) => i !== index))\<close>\<close>

definition handleRemove :: "store \<Rightarrow> val \<Rightarrow> nat \<Rightarrow> store \<times> val" where
  "handleRemove h value index =
     (let xs = arrayValue h value
      in alloc h (Array (map fst (filter (\<lambda>(_, i). i \<noteq> index) (zip xs [0..<length xs])))))"

text \<open>
  \<^verbatim>\<open>const newArray = [...arrayValue]; newArray[index] = itemValue; onChange(newArray)\<close>.
  The assignment writes into the copy. An index past the end lengthens a JavaScript array,
  the positions in between reading \<^verbatim>\<open>undefined\<close>; the editor only passes indices of
  elements it has rendered.
\<close>

definition assign :: "val list \<Rightarrow> nat \<Rightarrow> val \<Rightarrow> val list" where
  "assign xs index v =
     (if index < length xs then xs[index := v]
      else xs @ replicate (index - length xs) JUndefined @ [v])"

definition handleItemChange :: "store \<Rightarrow> val \<Rightarrow> nat \<Rightarrow> val \<Rightarrow> store \<times> val" where
  "handleItemChange h value index itemValue =
     alloc h (Array (assign (arrayValue h value) index itemValue))"

subsection \<open>Dispatch between the editors\<close>

text \<open>
  What a component renders for a schema and a value: the editor it hands both to.
  \<^verbatim>\<open>SchemaForm\<close> renders an object editor when the schema has properties and nothing
  otherwise.
\<close>

datatype editor =
    ObjectEditor JsonSchema val
  | ArrayEditor JsonSchema val
  | PrimitiveEditor JsonSchema val

definition SchemaForm :: "JsonSchema \<Rightarrow> val \<Rightarrow> editor option" where
  "SchemaForm schema value =
     (if s_properties schema \<noteq> None then Some (ObjectEditor schema value) else None)"

definition CollapsibleSection :: "JsonSchema \<Rightarrow> val \<Rightarrow> editor" where
  "CollapsibleSection schema value =
     (if getSchemaType schema = Some ''array'' then ArrayEditor schema value
      else ObjectEditor schema value)"

definition FieldRenderer :: "JsonSchema \<Rightarrow> val \<Rightarrow> editor" where
  "FieldRenderer schema value =
     (let type = getSchemaType schema in
      if type = Some ''object'' \<or> type = Some ''array'' then CollapsibleSection schema value
      else PrimitiveEditor schema value)"

text \<open>The children of an object editor: the simple fields, then the complex ones.\<close>

definition ObjectField :: "store \<Rightarrow> JsonSchema \<Rightarrow> val \<Rightarrow> (string \<times> editor) list" where
  "ObjectField h schema value =
     map (\<lambda>(propName, propSchema). (propName, FieldRenderer propSchema (child h value propName)))
       (simpleFields schema)
     @ map (\<lambda>(propName, propSchema).
         (propName, CollapsibleSection propSchema (child h value propName)))
       (complexFields schema)"

text \<open>The children of an array editor, one for each element; none is \<^verbatim>\<open>No items\<close>.\<close>

definition ArrayField :: "store \<Rightarrow> JsonSchema \<Rightarrow> val \<Rightarrow> editor list" where
  "ArrayField h schema value =
     (let itemType = getSchemaType (itemSchema schema) in
      map (\<lambda>item.
        if itemType = Some ''object'' \<or> itemType = Some ''array'' then
          (if itemType = Some ''array'' then ArrayEditor (itemSchema schema) item
           else ObjectEditor (itemSchema schema) item)
        else PrimitiveEditor (itemSchema schema) item)
      (arrayValue h value))"

subsection \<open>The primitive editor\<close>

text \<open>
  \<^verbatim>\<open>PrimitiveField\<close> renders one control. The model keeps which control it is, the options
  of a select, and the change handler as the function from the user's input to the value
  passed to \<^verbatim>\<open>onChange\<close>. The text a control displays is not modelled.
\<close>

datatype element =
    is_Switch: Switch (onCheckedChange: "bool \<Rightarrow> val")
  | is_Select: Select (options: "string list") (onValueChange: "string \<Rightarrow> val")
  | is_NumberInput: NumberInput (onChange: "string \<Rightarrow> val")
  | is_Textarea: Textarea (onChange: "string \<Rightarrow> val")
  | is_TextInput: TextInput (onChange: "string \<Rightarrow> val")

fun String_of :: "builtins \<Rightarrow> enum_literal \<Rightarrow> string" where
  "String_of B (LStr s) = s"
| "String_of B (LNum n) = numberToString B n"
| "String_of B (LBool b) = (if b then ''true'' else ''false'')"

fun literal_val :: "enum_literal \<Rightarrow> val" where
  "literal_val (LStr s) = JStr s"
| "literal_val (LNum n) = JNum n"
| "literal_val (LBool b) = JBool b"

definition hasEnum :: "JsonSchema \<Rightarrow> bool" where
  "hasEnum schema = (case s_enum schema of None \<Rightarrow> False | Some es \<Rightarrow> length es > 0)"

text \<open>\<^verbatim>\<open>a ?? b\<close>\<close>

definition nullish :: "val \<Rightarrow> val \<Rightarrow> val" where
  "nullish a b = (if a = JUndefined \<or> a = JNull then b else a)"

text \<open>\<^verbatim>\<open>schema.enum?.find((e) => String(e) === v)\<close>\<close>

definition find_enum :: "builtins \<Rightarrow> JsonSchema \<Rightarrow> string \<Rightarrow> val" where
  "find_enum B schema v =
     (case s_enum schema of
        None \<Rightarrow> JUndefined
      | Some es \<Rightarrow>
          (case List.find (\<lambda>e. String_of B e = v) es of
             None \<Rightarrow> JUndefined
           | Some e \<Rightarrow> literal_val e))"

text \<open>\<^verbatim>\<open>schema.format === "textarea" || (schema.maxLength && schema.maxLength > 200)\<close>\<close>

fun exceeds :: "number \<Rightarrow> rat \<Rightarrow> bool" where
  "exceeds NaN b = False"
| "exceeds PosInfinity b = True"
| "exceeds NegInfinity b = False"
| "exceeds (Finite r) b = (b < r)"

definition isMultiline :: "JsonSchema \<Rightarrow> bool" where
  "isMultiline schema =
     (s_format schema = Some ''textarea'' \<or>
      (case s_maxLength schema of
         None \<Rightarrow> False
       | Some n \<Rightarrow> n \<noteq> NaN \<and> n \<noteq> Finite 0 \<and> exceeds n 200))"

definition PrimitiveField :: "builtins \<Rightarrow> JsonSchema \<Rightarrow> element" where
  "PrimitiveField B schema =
     (let type = getSchemaType schema in
      if type = Some ''boolean'' then Switch JBool
      else if hasEnum schema then
        Select (map (String_of B) (case s_enum schema of None \<Rightarrow> [] | Some es \<Rightarrow> es))
          (\<lambda>v. nullish (find_enum B schema v) (JStr v))
      else if type = Some ''number'' \<or> type = Some ''integer'' then
        NumberInput (\<lambda>text.
          let num = (if type = Some ''integer'' then parseInt B text else parseFloat B text)
          in if isNaN num then JUndefined else JNum num)
      else if isMultiline schema then Textarea JStr
      else TextInput (\<lambda>text. if text = '''' then JUndefined else JStr text))"

subsection \<open>Change propagation\<close>

text \<open>
  An editor hands each child the value \<^verbatim>\<open>objValue[propName]\<close> (an object editor) or
  \<^verbatim>\<open>item\<close> (an array editor, for the elements it has) and the callback
  \<^verbatim>\<open>(v) => handlePropertyChange(propName, v)\<close> or \<^verbatim>\<open>(v) => handleItemChange(index, v)\<close>.
  So when the editor at the end of a path of property names and indices passes \<open>new\<close> to
  its \<^verbatim>\<open>onChange\<close>, the editors on the path run their handlers from the inside out and
  the root receives the result. There is no editor for an index the array does not have.
\<close>

datatype step = Prop string | Item nat

fun key :: "step \<Rightarrow> string" where
  "key (Prop propName) = propName"
| "key (Item index) = decimal index"

fun propagate :: "store \<Rightarrow> val \<Rightarrow> step list \<Rightarrow> val \<Rightarrow> (store \<times> val) option" where
  "propagate h value [] new = Some (h, new)"
| "propagate h value (Prop propName # p) new =
     (case propagate h (child h value propName) p new of
        None \<Rightarrow> None
      | Some (h1, v) \<Rightarrow> Some (handlePropertyChange h1 value propName v))"
| "propagate h value (Item index # p) new =
     (if index < length (arrayValue h value) then
        (case propagate h (arrayValue h value ! index) p new of
           None \<Rightarrow> None
         | Some (h1, v) \<Rightarrow> Some (handleItemChange h1 value index v))
      else None)"

text \<open>The value found by reading the properties \<open>ks\<close> one after the other.\<close>

fun subtree :: "store \<Rightarrow> val \<Rightarrow> string list \<Rightarrow> val" where
  "subtree h value [] = value"
| "subtree h value (k # ks) = subtree h (child h value k) ks"

text \<open>A position \<open>q\<close> is off the path \<open>p\<close> when it leaves \<open>p\<close> at one of the steps of \<open>p\<close>.\<close>

fun off_path :: "string list \<Rightarrow> string list \<Rightarrow> bool" where
  "off_path (a # p) (b # q) = (a \<noteq> b \<or> off_path p q)"
| "off_path _ _ = False"

text \<open>A store is closed when every reference in it, and a value when its reference, is to a
  cell of the store.\<close>

definition wf_val :: "store \<Rightarrow> val \<Rightarrow> bool" where
  "wf_val h v = (case v of JRef a \<Rightarrow> a < length h | _ \<Rightarrow> True)"

definition wf_cell :: "store \<Rightarrow> cell \<Rightarrow> bool" where
  "wf_cell h c =
     (case c of
        Object m \<Rightarrow> (\<forall>k v. m k = Some v \<longrightarrow> wf_val h v)
      | Array xs \<Rightarrow> (\<forall>v \<in> set xs. wf_val h v))"

definition wf_store :: "store \<Rightarrow> bool" where
  "wf_store h = (\<forall>a < length h. wf_cell h (h ! a))"

subsection \<open>Built-in functions for the examples\<close>

text \<open>
  A reader and a printer of decimal integers, to instantiate \<open>builtins\<close> in the examples.
  On the text of a decimal integer of at most fifteen digits, and on text that begins with
  a letter other than \<^verbatim>\<open>I\<close>, \<^verbatim>\<open>parseInt(s, 10)\<close> and \<^verbatim>\<open>parseFloat(s)\<close> both return what
  \<open>readDecimal\<close> returns; on NaN, the infinities and the integers of magnitude below
  \<open>10^21\<close>, \<^verbatim>\<open>String(n)\<close> returns what \<open>showNumber\<close> returns.
\<close>

definition readDecimal :: "string \<Rightarrow> number" where
  "readDecimal s =
     (let negative = (take 1 s = ''-'');
          ds = takeWhile (\<lambda>c. c \<in> set ''0123456789'') (if negative then drop 1 s else s);
          n = foldl (\<lambda>a c. 10 * a + digitValue c) 0 ds
      in if ds = [] then NaN
         else if negative then Finite (- of_nat n) else Finite (of_nat n))"

fun showNumber :: "number \<Rightarrow> string" where
  "showNumber NaN = ''NaN''"
| "showNumber PosInfinity = ''Infinity''"
| "showNumber NegInfinity = ''-Infinity''"
| "showNumber (Finite r) = (if r < 0 then ''-'' else '''') @ decimal (nat \<lfloor>\<bar>r\<bar>\<rfloor>)"

definition example_builtins :: builtins where
  "example_builtins =
     \<lparr>parseInt = readDecimal, parseFloat = readDecimal, numberToString = showNumber\<rparr>"

text \<open>
  The schema of the specification's scenario:
  \<^verbatim>\<open>{properties: {name: {type: "string"}, tags: {type: "array", items: {type: "string"}},
  enabled: {type: "boolean"}}}\<close>.
\<close>

definition example_schema :: JsonSchema where
  "example_schema =
     JsonSchema None
       (Some [(''name'', JsonSchema (Some (TypeName ''string'')) None None None None None None),
              (''tags'', JsonSchema (Some (TypeName ''array'')) None
                 (Some (JsonSchema (Some (TypeName ''string'')) None None None None None None))
                 None None None None),
              (''enabled'', JsonSchema (Some (TypeName ''boolean'')) None None None None None None)])
       None None None None None"

text \<open>
  A schema whose properties are declared in the order \<^verbatim>\<open>zeta, 10, alpha, 2, 1\<close>:
  \<^verbatim>\<open>{properties: {zeta: {type: "string"}, "10": {type: "string"}, alpha: {type: "object"},
  "2": {type: "string"}, "1": {type: "array"}}}\<close>.
\<close>

definition indexed_schema :: JsonSchema where
  "indexed_schema =
     JsonSchema None
       (Some [(''zeta'', JsonSchema (Some (TypeName ''string'')) None None None None None None),
              (''10'', JsonSchema (Some (TypeName ''string'')) None None None None None None),
              (''alpha'', JsonSchema (Some (TypeName ''object'')) None None None None None None),
              (''2'', JsonSchema (Some (TypeName ''string'')) None None None None None None),
              (''1'', JsonSchema (Some (TypeName ''array'')) None None None None None None)])
       None None None None None"

text \<open>\<^verbatim>\<open>{type: "number", enum: [1, 2, 3]}\<close>\<close>

definition numbers_schema :: JsonSchema where
  "numbers_schema = JsonSchema (Some (TypeName ''number'')) None None
      (Some [LNum (Finite 1), LNum (Finite 2), LNum (Finite 3)]) None None None"

text \<open>
  \<^verbatim>\<open>{type: "array", items: {type: "object", properties: {a: {type: "number"},
  b: {type: "string"}}}}\<close>
\<close>

definition items_schema :: JsonSchema where
  "items_schema =
     JsonSchema (Some (TypeName ''array'')) None
       (Some (JsonSchema (Some (TypeName ''object''))
          (Some [(''a'', JsonSchema (Some (TypeName ''number'')) None None None None None None),
                 (''b'', JsonSchema (Some (TypeName ''string'')) None None None None None None)])
          None None None None None))
       None None None None"

text \<open>
  A store with the value \<^verbatim>\<open>{name: "n", tags: ["x", "y", "z"], internal: 7}\<close>: the array is
  the cell 0 and the object the cell 1.
\<close>

definition example_store :: store where
  "example_store =
     [Array [JStr ''x'', JStr ''y'', JStr ''z''],
      Object [''name'' \<mapsto> JStr ''n'', ''tags'' \<mapsto> JRef 0, ''internal'' \<mapsto> JNum (Finite 7)]]"

text \<open>
  An array of strings, \<^verbatim>\<open>{type: "array", items: {type: "string"}}\<close>, an array of such
  arrays, and the store above with the value \<^verbatim>\<open>[null, tags]\<close> as its cell 2.
\<close>

definition tags_schema :: JsonSchema where
  "tags_schema =
     JsonSchema (Some (TypeName ''array'')) None
       (Some (JsonSchema (Some (TypeName ''string'')) None None None None None None))
       None None None None"

definition nested_store :: store where
  "nested_store = example_store @ [Array [JNull, JRef 0]]"

definition nested_schema :: JsonSchema where
  "nested_schema = JsonSchema (Some (TypeName ''array'')) None (Some tags_schema) None None None None"

section \<open>Properties\<close>

subsection \<open>Closed-choice rendering\<close>

text \<open>
  C1, as the code has it: the primitive editor looks at the kind before it looks at the
  enum. A schema node with a non-empty enum whose resolved kind is not \<^verbatim>\<open>boolean\<close> is
  rendered as a closed choice with one option for each enum literal, whatever its kind;
  a node whose resolved kind is \<^verbatim>\<open>boolean\<close> is rendered as a toggle, enum or not.
\<close>

theorem enum_renders_select_unless_boolean:
  assumes "hasEnum schema"
  shows "if getSchemaType schema = Some ''boolean''
         then is_Switch (PrimitiveField B schema)
         else is_Select (PrimitiveField B schema)
              \<and> options (PrimitiveField B schema) = map (String_of B) (the (s_enum schema))"
  using assms by (auto simp: PrimitiveField_def Let_def hasEnum_def split: option.splits)

theorem enum_renders_select_unless_boolean_witness:
  "hasEnum (JsonSchema (Some (TypeName ''number'')) None None
      (Some [LNum (Finite 1), LNum (Finite 2)]) None None None)
   \<and> is_Select (PrimitiveField example_builtins
        (JsonSchema (Some (TypeName ''number'')) None None
           (Some [LNum (Finite 1), LNum (Finite 2)]) None None None))
   \<and> options (PrimitiveField example_builtins
        (JsonSchema (Some (TypeName ''number'')) None None
           (Some [LNum (Finite 1), LNum (Finite 2)]) None None None))
      = [''1'', ''2'']"
  using enum_renders_select_unless_boolean
    [of "JsonSchema (Some (TypeName ''number'')) None None
           (Some [LNum (Finite 1), LNum (Finite 2)]) None None None" example_builtins]
  by (simp add: hasEnum_def getSchemaType_def truthy_type_def example_builtins_def
      decimal.simps digit_def)

text \<open>
  C1 as the specification states it fails: the node \<^verbatim>\<open>{type: "boolean", enum: [true, false]}\<close>
  has a non-empty enum and is rendered as a toggle, not as a closed choice.
\<close>

theorem boolean_enum_renders_switch:
  "hasEnum (JsonSchema (Some (TypeName ''boolean'')) None None
      (Some [LBool True, LBool False]) None None None)
   \<and> is_Switch (PrimitiveField example_builtins
        (JsonSchema (Some (TypeName ''boolean'')) None None
           (Some [LBool True, LBool False]) None None None))
   \<and> \<not> is_Select (PrimitiveField example_builtins
        (JsonSchema (Some (TypeName ''boolean'')) None None
           (Some [LBool True, LBool False]) None None None))"
  by (simp add: hasEnum_def PrimitiveField_def getSchemaType_def truthy_type_def)

subsection \<open>The field classifier\<close>

lemma Object_entries_index_part:
  "filter (\<lambda>(k, _). arrayIndex k \<noteq> None) (Object_entries ps) =
     sort_key (\<lambda>(k, _). case arrayIndex k of Some n \<Rightarrow> n | None \<Rightarrow> 0)
       (filter (\<lambda>(k, _). arrayIndex k \<noteq> None) ps)"
proof -
  let ?f = "\<lambda>(k :: string, _ :: 'a). case arrayIndex k of Some n \<Rightarrow> n | None \<Rightarrow> (0 :: nat)"
  let ?I = "\<lambda>(k :: string, _ :: 'a). arrayIndex k \<noteq> None"
  let ?N = "\<lambda>(k :: string, _ :: 'a). arrayIndex k = None"
  have "filter ?I (sort_key ?f (filter ?I ps)) = sort_key ?f (filter ?I ps)"
    by (rule filter_True) auto
  moreover have "filter ?I (filter ?N ps) = []"
    by (auto simp: filter_empty_conv)
  ultimately show ?thesis
    by (simp add: Object_entries_def)
qed

lemma Object_entries_name_part:
  "filter (\<lambda>(k, _). arrayIndex k = None) (Object_entries ps) =
     filter (\<lambda>(k, _). arrayIndex k = None) ps"
proof -
  let ?f = "\<lambda>(k :: string, _ :: 'a). case arrayIndex k of Some n \<Rightarrow> n | None \<Rightarrow> (0 :: nat)"
  let ?I = "\<lambda>(k :: string, _ :: 'a). arrayIndex k \<noteq> None"
  let ?N = "\<lambda>(k :: string, _ :: 'a). arrayIndex k = None"
  have "filter ?N (sort_key ?f (filter ?I ps)) = []"
    by (auto simp: filter_empty_conv)
  then show ?thesis
    by (simp add: Object_entries_def)
qed

lemma Object_entries_no_index:
  assumes "\<forall>k \<in> fst ` set ps. arrayIndex k = None"
  shows "Object_entries ps = ps"
proof -
  have "filter (\<lambda>(k, _). arrayIndex k \<noteq> None) ps = []"
    using assms by (auto simp: filter_empty_conv)
  moreover have "filter (\<lambda>(k, _). arrayIndex k = None) ps = ps"
    using assms by (intro filter_True) auto
  ultimately show ?thesis
    by (simp add: Object_entries_def)
qed

lemma set_Object_entries: "set (Object_entries ps) = set ps"
  by (auto simp: Object_entries_def)

lemma length_Object_entries: "length (Object_entries ps) = length ps"
  using sum_length_filter_compl [of "\<lambda>(k, _). arrayIndex k \<noteq> None" ps]
  by (simp add: Object_entries_def case_prod_unfold)

text \<open>
  C8, as the code has it: a property is among the complex fields exactly when its resolved
  kind is \<^verbatim>\<open>object\<close> or \<^verbatim>\<open>array\<close> and among the simple fields otherwise, and between them
  the two lists hold every property once. Both lists keep the properties in the order of
  \<^verbatim>\<open>Object.entries\<close>, which holds the declared properties, those whose names are array
  indices first and in ascending order of the index, the others after them in the order
  of their declaration. So both lists keep the order of declaration when no property name
  is an array index.
\<close>

theorem classifier_stable_partition:
  "subseq (simpleFields schema) (entries schema) \<and>
   subseq (complexFields schema) (entries schema) \<and>
   length (simpleFields schema) + length (complexFields schema) = length (entries schema) \<and>
   (\<forall>e \<in> set (entries schema).
      (e \<in> set (complexFields schema)) =
        (getSchemaType (snd e) = Some ''object'' \<or> getSchemaType (snd e) = Some ''array'') \<and>
      (e \<in> set (simpleFields schema)) =
        (\<not> (getSchemaType (snd e) = Some ''object'' \<or> getSchemaType (snd e) = Some ''array''))) \<and>
   set (entries schema) = set (properties schema) \<and>
   length (entries schema) = length (properties schema) \<and>
   (\<exists>indices names.
      entries schema = indices @ names \<and>
      (\<forall>e \<in> set indices. arrayIndex (fst e) \<noteq> None) \<and>
      sorted (map (\<lambda>e. the (arrayIndex (fst e))) indices) \<and>
      names = filter (\<lambda>(k, _). arrayIndex k = None) (properties schema)) \<and>
   ((\<forall>k \<in> fst ` set (properties schema). arrayIndex k = None) \<longrightarrow>
      entries schema = properties schema \<and>
      subseq (simpleFields schema) (properties schema) \<and>
      subseq (complexFields schema) (properties schema))"
proof -
  let ?c = "\<lambda>(_ :: string, propSchema).
       let type = getSchemaType propSchema in type = Some ''object'' \<or> type = Some ''array''"
  let ?f = "\<lambda>(k :: string, _ :: JsonSchema). case arrayIndex k of Some n \<Rightarrow> n | None \<Rightarrow> (0 :: nat)"
  let ?I = "\<lambda>(k :: string, _ :: JsonSchema). arrayIndex k \<noteq> None"
  have s: "simpleFields schema = filter (\<lambda>e. \<not> ?c e) (entries schema)"
    unfolding simpleFields_def by (rule filter_cong) (auto simp: Let_def)
  have c: "complexFields schema = filter ?c (entries schema)"
    unfolding complexFields_def by simp
  have len: "length (simpleFields schema) + length (complexFields schema) = length (entries schema)"
    unfolding s c using sum_length_filter_compl [of ?c "entries schema"] by simp
  have part: "subseq (simpleFields schema) (entries schema) \<and>
     subseq (complexFields schema) (entries schema) \<and>
     (\<forall>e \<in> set (entries schema).
        (e \<in> set (complexFields schema)) =
          (getSchemaType (snd e) = Some ''object'' \<or> getSchemaType (snd e) = Some ''array'') \<and>
        (e \<in> set (simpleFields schema)) =
          (\<not> (getSchemaType (snd e) = Some ''object'' \<or> getSchemaType (snd e) = Some ''array'')))"
    by (auto simp: s c Let_def)
  have sorted: "sorted (map (\<lambda>e. the (arrayIndex (fst e))) (sort_key ?f (filter ?I (properties schema))))"
  proof -
    have "map (\<lambda>e. the (arrayIndex (fst e))) (sort_key ?f (filter ?I (properties schema))) =
          map ?f (sort_key ?f (filter ?I (properties schema)))"
      by (rule map_cong) auto
    then show ?thesis by (simp only: sorted_sort_key)
  qed
  have order: "\<exists>indices names.
      entries schema = indices @ names \<and>
      (\<forall>e \<in> set indices. arrayIndex (fst e) \<noteq> None) \<and>
      sorted (map (\<lambda>e. the (arrayIndex (fst e))) indices) \<and>
      names = filter (\<lambda>(k, _). arrayIndex k = None) (properties schema)"
  proof (intro exI conjI)
    show "entries schema = sort_key ?f (filter ?I (properties schema))
        @ filter (\<lambda>(k, _). arrayIndex k = None) (properties schema)"
      by (simp add: entries_def Object_entries_def)
    show "\<forall>e \<in> set (sort_key ?f (filter ?I (properties schema))). arrayIndex (fst e) \<noteq> None"
      by auto
    show "sorted (map (\<lambda>e. the (arrayIndex (fst e))) (sort_key ?f (filter ?I (properties schema))))"
      by (rule sorted)
  qed (rule refl)
  have decl: "entries schema = properties schema \<and>
      subseq (simpleFields schema) (properties schema) \<and>
      subseq (complexFields schema) (properties schema)"
    if "\<forall>k \<in> fst ` set (properties schema). arrayIndex k = None"
  proof -
    from that have "entries schema = properties schema"
      unfolding entries_def by (rule Object_entries_no_index)
    with part show ?thesis by simp
  qed
  have st: "set (entries schema) = set (properties schema)"
    by (simp add: entries_def set_Object_entries)
  have ln: "length (entries schema) = length (properties schema)"
    by (simp add: entries_def length_Object_entries)
  from decl have d: "(\<forall>k \<in> fst ` set (properties schema). arrayIndex k = None) \<longrightarrow>
      entries schema = properties schema \<and>
      subseq (simpleFields schema) (properties schema) \<and>
      subseq (complexFields schema) (properties schema)"
    by (rule impI)
  from part have p1: "subseq (simpleFields schema) (entries schema)"
    and p2: "subseq (complexFields schema) (entries schema)"
    and mem: "\<forall>e \<in> set (entries schema).
      (e \<in> set (complexFields schema)) =
        (getSchemaType (snd e) = Some ''object'' \<or> getSchemaType (snd e) = Some ''array'') \<and>
      (e \<in> set (simpleFields schema)) =
        (\<not> (getSchemaType (snd e) = Some ''object'' \<or> getSchemaType (snd e) = Some ''array''))"
    by (rule conjunct1, rule conjunct2 [THEN conjunct1], rule conjunct2 [THEN conjunct2])
  show ?thesis
    by (intro conjI) (fact p1 p2 len mem st ln order d)+
qed

text \<open>The scenario of the specification: \<^verbatim>\<open>name\<close> and \<^verbatim>\<open>enabled\<close> are simple, \<^verbatim>\<open>tags\<close> is complex.\<close>

lemma arrayIndex_examples:
  "arrayIndex ''name'' = None" "arrayIndex ''tags'' = None" "arrayIndex ''enabled'' = None"
  "arrayIndex ''zeta'' = None" "arrayIndex ''alpha'' = None"
  "arrayIndex ''10'' = Some 10" "arrayIndex ''2'' = Some 2" "arrayIndex ''1'' = Some 1"
  by (simp_all add: arrayIndex_def digitValue_def decimal.simps digit_def)

theorem classifier_stable_partition_witness:
  "map fst (simpleFields example_schema) = [''name'', ''enabled''] \<and>
   map fst (complexFields example_schema) = [''tags''] \<and>
   entries example_schema = properties example_schema \<and>
   subseq (simpleFields example_schema) (properties example_schema) \<and>
   subseq (complexFields example_schema) (properties example_schema)"
proof -
  have p: "map fst (properties example_schema) = [''name'', ''tags'', ''enabled'']"
    by (simp add: example_schema_def properties_def)
  then have n: "\<forall>k \<in> fst ` set (properties example_schema). arrayIndex k = None"
    by (simp add: arrayIndex_examples flip: set_map)
  with classifier_stable_partition [of example_schema]
  have e: "entries example_schema = properties example_schema \<and>
      subseq (simpleFields example_schema) (properties example_schema) \<and>
      subseq (complexFields example_schema) (properties example_schema)"
    by blast
  then show ?thesis
    by (simp add: simpleFields_def complexFields_def)
       (simp add: example_schema_def properties_def getSchemaType_def truthy_type_def)
qed

text \<open>
  C8 as the specification states it fails: for the properties declared in the order
  \<^verbatim>\<open>zeta, 10, alpha, 2, 1\<close> the simple fields are \<^verbatim>\<open>2, 10, zeta\<close> and the complex fields
  \<^verbatim>\<open>1, alpha\<close>, neither in the order of declaration.
\<close>

theorem classifier_reorders_index_names:
  "map fst (properties indexed_schema) = [''zeta'', ''10'', ''alpha'', ''2'', ''1''] \<and>
   map fst (simpleFields indexed_schema) = [''2'', ''10'', ''zeta''] \<and>
   map fst (complexFields indexed_schema) = [''1'', ''alpha''] \<and>
   \<not> subseq (map fst (simpleFields indexed_schema)) (map fst (properties indexed_schema)) \<and>
   \<not> subseq (map fst (complexFields indexed_schema)) (map fst (properties indexed_schema))"
proof -
  have e: "map fst (entries indexed_schema) = [''1'', ''2'', ''10'', ''zeta'', ''alpha'']"
    by (simp add: entries_def Object_entries_def properties_def indexed_schema_def
        arrayIndex_examples)
  have s: "map fst (simpleFields indexed_schema) = [''2'', ''10'', ''zeta'']"
    by (simp add: simpleFields_def entries_def Object_entries_def properties_def
        indexed_schema_def arrayIndex_examples getSchemaType_def truthy_type_def)
  have c: "map fst (complexFields indexed_schema) = [''1'', ''alpha'']"
    by (simp add: complexFields_def entries_def Object_entries_def properties_def
        indexed_schema_def arrayIndex_examples getSchemaType_def truthy_type_def)
  have p: "map fst (properties indexed_schema) = [''zeta'', ''10'', ''alpha'', ''2'', ''1'']"
    by (simp add: properties_def indexed_schema_def)
  have "\<not> subseq [''2'', ''10'', ''zeta''] [''zeta'', ''10'', ''alpha'', ''2'', ''1'']"
    by (simp add: subseq_Cons2_iff list_emb_Cons_iff2)
  moreover have "\<not> subseq [''1'', ''alpha''] [''zeta'', ''10'', ''alpha'', ''2'', ''1'']"
    by (simp add: subseq_Cons2_iff list_emb_Cons_iff2)
  ultimately show ?thesis
    by (simp add: s c p)
qed

subsection \<open>Text and number inputs\<close>

lemma isMultiline_iff:
  "isMultiline schema =
     (s_format schema = Some ''textarea'' \<or> (\<exists>n. s_maxLength schema = Some n \<and> exceeds n 200))"
proof -
  have "n \<noteq> NaN \<and> n \<noteq> Finite 0" if "exceeds n 200" for n
    using that by (cases n) auto
  then show ?thesis
    unfolding isMultiline_def by (auto split: option.splits)
qed

text \<open>
  C9: a field of kind \<^verbatim>\<open>number\<close> or \<^verbatim>\<open>integer\<close> that has no enum is rendered as a number
  input. An edit is parsed with \<^verbatim>\<open>parseInt\<close> for an integer and with \<^verbatim>\<open>parseFloat\<close> for a
  number; when the result is NaN the input passes \<^verbatim>\<open>undefined\<close> on, and otherwise the
  number parsed. There is no other outcome.
\<close>

theorem number_input_parse:
  assumes "getSchemaType schema = Some ''number'' \<or> getSchemaType schema = Some ''integer''"
    and "\<not> hasEnum schema"
  shows "is_NumberInput (PrimitiveField B schema) \<and>
         (let num = (if getSchemaType schema = Some ''integer''
                     then parseInt B text else parseFloat B text)
          in (isNaN num \<longrightarrow> onChange (PrimitiveField B schema) text = JUndefined) \<and>
             (\<not> isNaN num \<longrightarrow> onChange (PrimitiveField B schema) text = JNum num))"
  using assms by (auto simp: PrimitiveField_def Let_def)

theorem number_input_parse_witness:
  "is_NumberInput (PrimitiveField example_builtins
      (JsonSchema (Some (TypeName ''integer'')) None None None None None None)) \<and>
   onChange (PrimitiveField example_builtins
      (JsonSchema (Some (TypeName ''integer'')) None None None None None None)) ''abc''
     = JUndefined \<and>
   onChange (PrimitiveField example_builtins
      (JsonSchema (Some (TypeName ''integer'')) None None None None None None)) ''42''
     = JNum (Finite 42) \<and>
   onChange (PrimitiveField example_builtins
      (JsonSchema (Some (TypeName ''number'')) None None None None None None)) ''''
     = JUndefined"
  using
    number_input_parse [of "JsonSchema (Some (TypeName ''integer'')) None None None None None None"
      example_builtins "''abc''"]
    number_input_parse [of "JsonSchema (Some (TypeName ''integer'')) None None None None None None"
      example_builtins "''42''"]
    number_input_parse [of "JsonSchema (Some (TypeName ''number'')) None None None None None None"
      example_builtins "''''"]
  by (simp add: getSchemaType_def truthy_type_def hasEnum_def example_builtins_def
      readDecimal_def digitValue_def isNaN_def)

text \<open>
  C10: a field of kind \<^verbatim>\<open>string\<close> that has no enum is rendered as a multi-line input when
  its format is \<^verbatim>\<open>textarea\<close> or its \<^verbatim>\<open>maxLength\<close> is greater than 200, and then an edit to
  the empty string passes the empty string on; otherwise it is rendered as a single-line
  input, and an edit to the empty string passes \<^verbatim>\<open>undefined\<close> on.
\<close>

theorem multiline_keeps_empty_string:
  assumes "getSchemaType schema = Some ''string''" and "\<not> hasEnum schema"
  shows "if s_format schema = Some ''textarea'' \<or>
            (\<exists>n. s_maxLength schema = Some n \<and> exceeds n 200)
         then is_Textarea (PrimitiveField B schema) \<and>
              onChange (PrimitiveField B schema) '''' = JStr ''''
         else is_TextInput (PrimitiveField B schema) \<and>
              onChange (PrimitiveField B schema) '''' = JUndefined"
  using assms by (simp add: PrimitiveField_def isMultiline_iff [symmetric])

theorem multiline_keeps_empty_string_witness:
  "is_Textarea (PrimitiveField example_builtins
      (JsonSchema (Some (TypeName ''string'')) None None None None (Some (Finite 500)) None)) \<and>
   onChange (PrimitiveField example_builtins
      (JsonSchema (Some (TypeName ''string'')) None None None None (Some (Finite 500)) None)) ''''
     = JStr '''' \<and>
   is_TextInput (PrimitiveField example_builtins
      (JsonSchema (Some (TypeName ''string'')) None None None None None None)) \<and>
   onChange (PrimitiveField example_builtins
      (JsonSchema (Some (TypeName ''string'')) None None None None None None)) ''''
     = JUndefined"
  using
    multiline_keeps_empty_string
      [of "JsonSchema (Some (TypeName ''string'')) None None None None (Some (Finite 500)) None"
        example_builtins]
    multiline_keeps_empty_string
      [of "JsonSchema (Some (TypeName ''string'')) None None None None None None"
        example_builtins]
  by (simp add: getSchemaType_def truthy_type_def hasEnum_def)

subsection \<open>Selecting an enum literal\<close>

lemma find_first:
  "\<forall>x \<in> set pre. \<not> P x \<Longrightarrow> P e \<Longrightarrow> List.find P (pre @ e # post) = Some e"
  by (induction pre) auto

lemma nullish_literal: "nullish (literal_val e) b = literal_val e"
  by (cases e) (simp_all add: nullish_def)

lemma is_Select_iff:
  "is_Select (PrimitiveField B schema) =
     (getSchemaType schema \<noteq> Some ''boolean'' \<and> hasEnum schema)"
  by (simp add: PrimitiveField_def Let_def)

lemma onValueChange_eq:
  "is_Select (PrimitiveField B schema) \<Longrightarrow>
   onValueChange (PrimitiveField B schema) v = nullish (find_enum B schema v) (JStr v)"
  by (simp add: PrimitiveField_def Let_def split: if_splits)

text \<open>
  C4: where the primitive editor renders a select, the enum is non-empty, and a selection
  of the string \<open>v\<close> passes on the first enum literal whose string representation is \<open>v\<close>,
  as the value that literal is (a number as a number, a boolean as a boolean, a string as
  a string); when no literal has the string representation \<open>v\<close> it passes on the string
  \<open>v\<close> itself.
\<close>

theorem enum_selection_first_match:
  assumes "is_Select (PrimitiveField B schema)"
  shows "\<exists>es. s_enum schema = Some es \<and> es \<noteq> [] \<and>
     (\<forall>pre e post.
        es = pre @ e # post \<and> (\<forall>x \<in> set pre. String_of B x \<noteq> v) \<and> String_of B e = v
        \<longrightarrow> onValueChange (PrimitiveField B schema) v = literal_val e) \<and>
     ((\<forall>e \<in> set es. String_of B e \<noteq> v)
        \<longrightarrow> onValueChange (PrimitiveField B schema) v = JStr v)"
proof -
  from assms have "hasEnum schema"
    by (simp add: is_Select_iff)
  then obtain es where es: "s_enum schema = Some es" "es \<noteq> []"
    by (auto simp: hasEnum_def split: option.splits)
  have first: "onValueChange (PrimitiveField B schema) v = literal_val e"
    if "es = pre @ e # post" "\<forall>x \<in> set pre. String_of B x \<noteq> v" "String_of B e = v"
    for pre e post
  proof -
    have "List.find (\<lambda>e. String_of B e = v) es = Some e"
      using that find_first [of pre "\<lambda>e. String_of B e = v" e post] by simp
    then show ?thesis
      using assms es by (simp add: onValueChange_eq find_enum_def nullish_literal)
  qed
  have none: "onValueChange (PrimitiveField B schema) v = JStr v"
    if "\<forall>e \<in> set es. String_of B e \<noteq> v"
  proof -
    have "List.find (\<lambda>e. String_of B e = v) es = None"
      using that by (simp add: find_None_iff)
    then show ?thesis
      using assms es by (simp add: onValueChange_eq find_enum_def nullish_def)
  qed
  from es first none show ?thesis by blast
qed

text \<open>Selecting \<^verbatim>\<open>"2"\<close> against \<^verbatim>\<open>enum: [1, 2, 3]\<close> passes on the number 2.\<close>

theorem enum_selection_first_match_witness:
  "is_Select (PrimitiveField example_builtins numbers_schema) \<and>
   onValueChange (PrimitiveField example_builtins numbers_schema) ''2'' = JNum (Finite 2) \<and>
   onValueChange (PrimitiveField example_builtins numbers_schema) ''two'' = JStr ''two''"
  using enum_selection_first_match [of example_builtins numbers_schema "''2''"]
  by (simp add: numbers_schema_def PrimitiveField_def getSchemaType_def truthy_type_def
      hasEnum_def find_enum_def nullish_def example_builtins_def decimal.simps digit_def)

subsection \<open>Default values\<close>

text \<open>
  C5: \<^verbatim>\<open>getDefaultValue\<close> returns the default of the schema as it is when the schema has
  one; when it has none it returns a fresh empty object for the kind \<^verbatim>\<open>object\<close>, a fresh
  empty array for \<^verbatim>\<open>array\<close>, \<^verbatim>\<open>false\<close> for \<^verbatim>\<open>boolean\<close>, \<^verbatim>\<open>0\<close> for \<^verbatim>\<open>number\<close> and
  \<^verbatim>\<open>integer\<close> and the empty string for \<^verbatim>\<open>string\<close>. So appending to an empty array whose
  item schema is of kind \<^verbatim>\<open>object\<close> and has no default gives an array whose one element is
  a fresh empty object, whatever properties the item schema declares.
\<close>

theorem default_value_synthesis:
  "(\<forall>d. s_default schema = Some d \<and> d \<noteq> JUndefined \<longrightarrow> getDefaultValue h schema = (h, d)) \<and>
   (s_default schema = None \<longrightarrow>
      (getSchemaType schema = Some ''object'' \<longrightarrow>
         getDefaultValue h schema = (h @ [Object Map.empty], JRef (length h))) \<and>
      (getSchemaType schema = Some ''array'' \<longrightarrow>
         getDefaultValue h schema = (h @ [Array []], JRef (length h))) \<and>
      (getSchemaType schema = Some ''boolean'' \<longrightarrow> getDefaultValue h schema = (h, JBool False)) \<and>
      (getSchemaType schema = Some ''number'' \<longrightarrow> getDefaultValue h schema = (h, JNum (Finite 0))) \<and>
      (getSchemaType schema = Some ''integer'' \<longrightarrow> getDefaultValue h schema = (h, JNum (Finite 0))) \<and>
      (getSchemaType schema = Some ''string'' \<longrightarrow> getDefaultValue h schema = (h, JStr ''''))) \<and>
   (s_default (itemSchema arraySchema) = None \<and>
    getSchemaType (itemSchema arraySchema) = Some ''object'' \<and>
    arrayValue h value = [] \<longrightarrow>
      handleAdd h arraySchema value =
        (h @ [Object Map.empty, Array [JRef (length h)]], JRef (Suc (length h))))"
  by (simp add: getDefaultValue_def handleAdd_def alloc_def field_def Let_def)

theorem default_value_synthesis_witness:
  "handleAdd [Array []] items_schema (JRef 0) =
     ([Array [], Object Map.empty, Array [JRef 1]], JRef 2) \<and>
   getDefaultValue []
     (JsonSchema (Some (TypeName ''object'')) None None None (Some (JNum (Finite 5))) None None)
     = ([], JNum (Finite 5)) \<and>
   getDefaultValue [] (JsonSchema (Some (TypeName ''integer'')) None None None None None None)
     = ([], JNum (Finite 0))"
  using
    default_value_synthesis
      [of "JsonSchema (Some (TypeName ''object'')) None None None (Some (JNum (Finite 5))) None None"
        "[]" items_schema "JRef 0"]
    default_value_synthesis
      [of "JsonSchema (Some (TypeName ''integer'')) None None None None None None"
        "[]" items_schema "JRef 0"]
    default_value_synthesis
      [of "JsonSchema (Some (TypeName ''integer'')) None None None None None None"
        "[Array []]" items_schema "JRef 0"]
  by (simp add: items_schema_def itemSchema_def getSchemaType_def truthy_type_def
      arrayValue_def lookup_def)

subsection \<open>Lists, index keys and the store\<close>

text \<open>
  The filter of \<^verbatim>\<open>handleRemove\<close> drops one position; the decimal keys of the indices of an
  array are distinct; the handlers only add cells to the store, so a closed store stays
  closed and what was read from it before reads the same afterwards.
\<close>

lemma remove_at:
  "map fst (filter (\<lambda>(_, i). i \<noteq> index) (zip xs [k..<k + length xs])) =
     (if index < k then xs else take (index - k) xs @ drop (Suc (index - k)) xs)"
proof (induction xs arbitrary: k)
  case Nil
  then show ?case by simp
next
  case (Cons x xs)
  have e: "[k..<Suc (k + length xs)] = k # [Suc k..<Suc (k + length xs)]"
    by (rule upt_conv_Cons) simp
  have IH: "map fst (filter (\<lambda>(_, i). i \<noteq> index) (zip xs [Suc k..<Suc (k + length xs)])) =
     (if index < Suc k then xs else take (index - Suc k) xs @ drop (Suc (index - Suc k)) xs)"
    using Cons [of "Suc k"] by simp
  consider "index < k" | "index = k" | d where "index = Suc (k + d)"
    by (metis less_iff_Suc_add not_less_iff_gr_or_eq)
  then show ?case
  proof cases
    case 1
    then show ?thesis using IH by (simp add: e del: upt_Suc)
  next
    case 2
    then show ?thesis using IH by (simp add: e del: upt_Suc)
  next
    case 3
    then show ?thesis using IH by (simp add: e del: upt_Suc)
  qed
qed

lemma remove_take_drop:
  "map fst (filter (\<lambda>(_, i). i \<noteq> index) (zip xs [0..<length xs])) =
     take index xs @ drop (Suc index) xs"
  using remove_at [of index xs 0] by simp

lemma digit_inj: "n < 10 \<Longrightarrow> m < 10 \<Longrightarrow> digit n = digit m \<Longrightarrow> n = m"
proof -
  have d: "distinct ''0123456789''" by simp
  assume "n < 10" "m < 10" "digit n = digit m"
  then show ?thesis
    using nth_eq_iff_index_eq [OF d, of n m] by (simp add: digit_def)
qed

lemma decimal_nonempty: "decimal n \<noteq> []"
  by (subst decimal.simps) simp

lemma decimal_inj: "decimal n = decimal m \<Longrightarrow> n = m"
proof (induction n arbitrary: m rule: decimal.induct)
  case (1 n)
  show ?case
  proof (cases "n < 10")
    case True
    then have n: "decimal n = [digit n]" by (simp add: decimal.simps)
    have m: "m < 10"
    proof (rule ccontr)
      assume "\<not> m < 10"
      then have "decimal m = decimal (m div 10) @ [digit (m mod 10)]"
        by (subst decimal.simps) simp
      with "1.prems" n show False by (simp add: decimal_nonempty decimal_nonempty [THEN not_sym])
    qed
    then have "decimal m = [digit m]" by (simp add: decimal.simps)
    with "1.prems" n True m show ?thesis by (simp add: digit_inj)
  next
    case False
    then have n: "decimal n = decimal (n div 10) @ [digit (n mod 10)]"
      by (subst decimal.simps) simp
    have m: "\<not> m < 10"
    proof
      assume "m < 10"
      then have "decimal m = [digit m]" by (simp add: decimal.simps)
      with "1.prems" n show False by (simp add: decimal_nonempty decimal_nonempty [THEN not_sym])
    qed
    then have "decimal m = decimal (m div 10) @ [digit (m mod 10)]"
      by (subst decimal.simps) simp
    with "1.prems" n have "decimal (n div 10) = decimal (m div 10)"
      and "digit (n mod 10) = digit (m mod 10)" by simp_all
    then have "n div 10 = m div 10" and "n mod 10 = m mod 10"
      using "1.IH" [OF False] by (simp_all add: digit_inj)
    then show ?thesis
      by (metis div_mult_mod_eq)
  qed
qed

lemma index_props_nth:
  assumes "i < length xs"
  shows "index_props xs (decimal i) = Some (xs ! i)"
proof -
  have "distinct (map decimal [0..<length xs])"
    by (simp add: distinct_map inj_on_def decimal_inj)
  then have "map_of (zip (map decimal [0..<length xs]) xs) (map decimal [0..<length xs] ! i) = Some (xs ! i)"
    using assms by (intro map_of_zip_nth) simp_all
  then show ?thesis
    using assms by (simp add: index_props_def)
qed

lemma index_props_ran: "index_props xs k = Some v \<Longrightarrow> v \<in> set xs"
  unfolding index_props_def by (auto dest!: map_of_SomeD set_zip_rightD)

lemma lookup_prefix: "prefix h h' \<Longrightarrow> a < length h \<Longrightarrow> lookup h' a = lookup h a"
  by (auto simp: prefix_def lookup_def nth_append)

lemma lookup_alloc: "lookup (h @ [c]) (length h) = Some c"
  by (simp add: lookup_def)

lemma objValue_prefix: "prefix h h' \<Longrightarrow> wf_val h v \<Longrightarrow> objValue h' v = objValue h v"
  by (cases v) (simp_all add: objValue_def wf_val_def lookup_prefix)

lemma arrayValue_prefix: "prefix h h' \<Longrightarrow> wf_val h v \<Longrightarrow> arrayValue h' v = arrayValue h v"
  by (cases v) (simp_all add: arrayValue_def wf_val_def lookup_prefix)

lemma child_prefix: "prefix h h' \<Longrightarrow> wf_val h v \<Longrightarrow> child h' v k = child h v k"
  by (simp add: child_def objValue_prefix)

lemma objValue_alloc: "objValue (h @ [Object m]) (JRef (length h)) = m"
  by (simp add: objValue_def lookup_alloc)

lemma arrayValue_alloc: "arrayValue (h @ [Array xs]) (JRef (length h)) = xs"
  by (simp add: arrayValue_def lookup_alloc)

lemma objValue_alloc_array: "objValue (h @ [Array xs]) (JRef (length h)) = index_props xs"
  by (simp add: objValue_def lookup_alloc)

lemma wf_val_prefix: "prefix h h' \<Longrightarrow> wf_val h v \<Longrightarrow> wf_val h' v"
  by (cases v) (auto simp: wf_val_def dest: prefix_length_le)

lemma wf_cell_prefix: "prefix h h' \<Longrightarrow> wf_cell h c \<Longrightarrow> wf_cell h' c"
  by (cases c) (auto simp: wf_cell_def intro: wf_val_prefix)

lemma wf_store_alloc:
  assumes "wf_store h" and "wf_cell h c"
  shows "wf_store (h @ [c])"
proof -
  have p: "prefix h (h @ [c])" by simp
  have "wf_cell (h @ [c]) ((h @ [c]) ! a)" if "a < length (h @ [c])" for a
  proof (cases "a < length h")
    case True
    then have "wf_cell h (h ! a)" using assms(1) by (simp add: wf_store_def)
    then show ?thesis using True wf_cell_prefix [OF p] by (simp add: nth_append)
  next
    case False
    with that have "a = length h" by simp
    then show ?thesis using assms(2) wf_cell_prefix [OF p] by simp
  qed
  then show ?thesis unfolding wf_store_def by blast
qed

lemma wf_arrayValue:
  assumes "wf_store h" and "x \<in> set (arrayValue h v)"
  shows "wf_val h x"
proof (cases v)
  case (JRef a)
  show ?thesis
  proof (cases "lookup h a")
    case None
    with JRef assms(2) show ?thesis by (simp add: arrayValue_def)
  next
    case (Some c)
    then have a: "a < length h" "h ! a = c" by (auto simp: lookup_def split: if_splits)
    then have "wf_cell h c" using assms(1) by (auto simp: wf_store_def)
    with JRef Some assms(2) show ?thesis
      by (cases c) (auto simp: arrayValue_def wf_cell_def)
  qed
qed (use assms in \<open>simp_all add: arrayValue_def\<close>)

lemma wf_objValue:
  assumes "wf_store h" and "objValue h v k = Some x"
  shows "wf_val h x"
proof (cases v)
  case (JRef a)
  show ?thesis
  proof (cases "lookup h a")
    case None
    with JRef assms(2) show ?thesis by (simp add: objValue_def)
  next
    case (Some c)
    then have a: "a < length h" "h ! a = c" by (auto simp: lookup_def split: if_splits)
    then have "wf_cell h c" using assms(1) by (auto simp: wf_store_def)
    with JRef Some assms(2) show ?thesis
      by (cases c) (auto simp: objValue_def wf_cell_def dest: index_props_ran)
  qed
qed (use assms in \<open>simp_all add: objValue_def\<close>)

lemma wf_child: "wf_store h \<Longrightarrow> wf_val h (child h v k)"
  by (cases "objValue h v k") (auto simp: child_def field_def wf_val_def dest: wf_objValue)

lemma subtree_prefix:
  "wf_store h \<Longrightarrow> wf_val h v \<Longrightarrow> prefix h h' \<Longrightarrow> subtree h' v q = subtree h v q"
proof (induction q arbitrary: v)
  case Nil
  then show ?case by simp
next
  case (Cons k q)
  then show ?case by (simp add: child_prefix wf_child)
qed


lemma index_props_None: "k \<notin> decimal ` {..<length xs} \<Longrightarrow> index_props xs k = None"
proof -
  assume "k \<notin> decimal ` {..<length xs}"
  then have "k \<notin> set (map decimal [0..<length xs])"
    by (simp add: lessThan_atLeast0)
  then show ?thesis
    unfolding index_props_def by (simp add: map_of_zip_is_None)
qed

lemma index_props_update:
  assumes "k \<noteq> decimal i"
  shows "index_props (xs[i := v]) k = index_props xs k"
proof (cases "k \<in> decimal ` {..<length xs}")
  case True
  then obtain j where j: "j < length xs" "k = decimal j" by auto
  with assms have "j \<noteq> i" by auto
  with j show ?thesis by (simp add: index_props_nth)
next
  case False
  then show ?thesis by (simp add: index_props_None)
qed

lemma objValue_array:
  "i < length (arrayValue h value) \<Longrightarrow> objValue h value = index_props (arrayValue h value)"
  by (auto simp: arrayValue_def objValue_def split: val.splits option.splits cell.splits)

lemma propagate_inv:
  assumes "wf_store h" and "wf_val h new"
  shows "propagate h value p new = Some (h', r) \<Longrightarrow> prefix h h' \<and> wf_store h' \<and> wf_val h' r"
proof (induction p arbitrary: "value" h' r)
  case Nil
  with assms show ?case by simp
next
  case (Cons s p)
  show ?case
  proof (cases s)
    case (Prop k)
    with Cons.prems obtain h1 v where
      rec: "propagate h (child h value k) p new = Some (h1, v)" and
      res: "handlePropertyChange h1 value k v = (h', r)"
      by (auto split: option.splits)
    from Cons.IH [OF rec] have ih: "prefix h h1" "wf_store h1" "wf_val h1 v" by simp_all
    from res have h': "h' = h1 @ [Object ((objValue h1 value)(k \<mapsto> v))]" and r: "r = JRef (length h1)"
      by (simp_all add: handlePropertyChange_def alloc_def)
    have "wf_cell h1 (Object ((objValue h1 value)(k \<mapsto> v)))"
      using ih(2,3) by (auto simp: wf_cell_def dest: wf_objValue split: if_splits)
    then have "wf_store h'" unfolding h' using ih(2) by (rule wf_store_alloc [rotated])
    moreover have "prefix h h'" using ih(1) by (simp add: h' prefix_def) auto
    moreover have "wf_val h' r" by (simp add: h' r wf_val_def)
    ultimately show ?thesis by simp
  next
    case (Item i)
    with Cons.prems obtain h1 v where
      i: "i < length (arrayValue h value)" and
      rec: "propagate h (arrayValue h value ! i) p new = Some (h1, v)" and
      res: "handleItemChange h1 value i v = (h', r)"
      by (auto split: option.splits if_splits)
    from Cons.IH [OF rec] have ih: "prefix h h1" "wf_store h1" "wf_val h1 v" by simp_all
    from res have h': "h' = h1 @ [Array (assign (arrayValue h1 value) i v)]"
      and r: "r = JRef (length h1)"
      by (simp_all add: handleItemChange_def alloc_def)
    have "wf_val h1 x" if "x \<in> set (assign (arrayValue h1 value) i v)" for x
    proof -
      from that have "x \<in> set (arrayValue h1 value) \<or> x = v \<or> x = JUndefined"
        by (auto simp: assign_def split: if_splits dest: set_update_subset_insert [THEN subsetD])
      then show ?thesis using ih(2,3) by (auto simp: wf_val_def dest: wf_arrayValue)
    qed
    then have "wf_cell h1 (Array (assign (arrayValue h1 value) i v))"
      by (simp add: wf_cell_def)
    then have "wf_store h'" unfolding h' using ih(2) by (rule wf_store_alloc [rotated])
    moreover have "prefix h h'" using ih(1) by (simp add: h' prefix_def) auto
    moreover have "wf_val h' r" by (simp add: h' r wf_val_def)
    ultimately show ?thesis by simp
  qed
qed

lemma propagate_frame:
  assumes "wf_store h" and "wf_val h new"
  shows "wf_val h value \<Longrightarrow> propagate h value p new = Some (h', r) \<Longrightarrow>
         off_path (map key p) q \<Longrightarrow> subtree h' r q = subtree h value q"
proof (induction p arbitrary: "value" h' r q)
  case Nil
  then show ?case by simp
next
  case (Cons s p)
  from Cons.prems(3) obtain b q' where q: "q = b # q'"
    by (cases q) simp_all
  from Cons.prems(2) have pre: "prefix h h'"
    using propagate_inv [OF assms] by blast
  have off: "subtree h' (child h value b) q' = subtree h value q"
    using subtree_prefix [OF assms(1) wf_child [OF assms(1)] pre] by (simp add: q)
  show ?case
  proof (cases s)
    case (Prop k)
    with Cons.prems obtain h1 v where
      rec: "propagate h (child h value k) p new = Some (h1, v)" and
      res: "handlePropertyChange h1 value k v = (h', r)"
      by (auto split: option.splits)
    from propagate_inv [OF assms rec] have ih: "prefix h h1" "wf_store h1" "wf_val h1 v"
      by simp_all
    from res have h': "h' = h1 @ [Object ((objValue h1 value)(k \<mapsto> v))]" and r: "r = JRef (length h1)"
      by (simp_all add: handlePropertyChange_def alloc_def)
    have ov: "objValue h1 value = objValue h value"
      using ih(1) Cons.prems(1) by (rule objValue_prefix)
    show ?thesis
    proof (cases "b = k")
      case False
      then have "child h' r b = child h value b"
        by (simp add: child_def h' r objValue_alloc ov)
      then show ?thesis using off by (simp add: q)
    next
      case True
      with Cons.prems(3) Prop q have o: "off_path (map key p) q'" by simp
      have "child h' r b = v"
        using True by (simp add: child_def h' r objValue_alloc field_def)
      then have "subtree h' r q = subtree h' v q'" by (simp add: q)
      also have "\<dots> = subtree h1 v q'"
        using ih(2,3) by (rule subtree_prefix) (simp add: h')
      also have "\<dots> = subtree h (child h value k) q'"
        using wf_child [OF assms(1)] rec o by (rule Cons.IH)
      finally show ?thesis by (simp add: q True)
    qed
  next
    case (Item i)
    with Cons.prems obtain h1 v where
      i: "i < length (arrayValue h value)" and
      rec: "propagate h (arrayValue h value ! i) p new = Some (h1, v)" and
      res: "handleItemChange h1 value i v = (h', r)"
      by (auto split: option.splits if_splits)
    from propagate_inv [OF assms rec] have ih: "prefix h h1" "wf_store h1" "wf_val h1 v"
      by simp_all
    have av: "arrayValue h1 value = arrayValue h value"
      using ih(1) Cons.prems(1) by (rule arrayValue_prefix)
    from res have h': "h' = h1 @ [Array ((arrayValue h value)[i := v])]"
      and r: "r = JRef (length h1)"
      using i by (simp_all add: handleItemChange_def alloc_def assign_def av)
    have ov: "objValue h value = index_props (arrayValue h value)"
      using i by (rule objValue_array)
    show ?thesis
    proof (cases "b = decimal i")
      case False
      then have "child h' r b = child h value b"
        by (simp add: child_def h' r objValue_alloc_array ov index_props_update)
      then show ?thesis using off by (simp add: q)
    next
      case True
      with Cons.prems(3) Item q have o: "off_path (map key p) q'" by simp
      have "child h' r b = v"
        using True i by (simp add: child_def h' r objValue_alloc_array index_props_nth field_def)
      then have "subtree h' r q = subtree h' v q'" by (simp add: q)
      also have "\<dots> = subtree h1 v q'"
        using ih(2,3) by (rule subtree_prefix) (simp add: h')
      also have "\<dots> = subtree h (arrayValue h value ! i) q'"
      proof (rule Cons.IH [OF _ rec o])
        show "wf_val h (arrayValue h value ! i)"
          using wf_arrayValue [OF assms(1), of "arrayValue h value ! i" "value"] i by simp
      qed
      also have "arrayValue h value ! i = child h value b"
        using True i by (simp add: child_def ov index_props_nth field_def)
      finally show ?thesis by (simp add: q)
    qed
  qed
qed

subsection \<open>What the handlers return\<close>

lemma isArray_alloc: "isArray (h @ [Array xs]) (JRef (length h))"
  by (simp add: isArray_def lookup_alloc)

lemma not_isArray: "\<not> isArray h value \<Longrightarrow> arrayValue h value = []"
  by (auto simp: isArray_def arrayValue_def split: val.splits option.splits cell.splits)

lemma getDefaultValue_prefix: "prefix h (fst (getDefaultValue h schema))"
  by (simp add: getDefaultValue_def alloc_def Let_def)

lemma handleAdd_result:
  "handleAdd h schema value =
     (fst (getDefaultValue h (itemSchema schema))
        @ [Array (arrayValue h value @ [snd (getDefaultValue h (itemSchema schema))])],
      JRef (length (fst (getDefaultValue h (itemSchema schema)))))"
  by (simp add: handleAdd_def alloc_def split_beta)

lemma handleRemove_result:
  "handleRemove h value index =
     (h @ [Array (take index (arrayValue h value) @ drop (Suc index) (arrayValue h value))],
      JRef (length h))"
  by (simp add: handleRemove_def alloc_def Let_def remove_take_drop)

lemma handlePropertyChange_result:
  "handlePropertyChange h value propName propValue =
     (h @ [Object ((objValue h value)(propName \<mapsto> propValue))], JRef (length h))"
  by (simp add: handlePropertyChange_def alloc_def)

lemma handleItemChange_result:
  "handleItemChange h value index itemValue =
     (h @ [Array (assign (arrayValue h value) index itemValue)], JRef (length h))"
  by (simp add: handleItemChange_def alloc_def)

lemma assign_in_range:
  "index < length xs \<Longrightarrow> assign xs index v = xs[index := v]"
  by (simp add: assign_def)

lemma wf_example_store: "wf_store example_store"
  by (auto simp: wf_store_def example_store_def wf_cell_def wf_val_def less_Suc_eq split: if_splits)

text \<open>The editors that an object editor and an array editor hand an array schema to.\<close>

lemma ObjectField_member:
  assumes "(propName, schema) \<in> set (entries parent)"
    and "getSchemaType schema = Some ''array''"
  shows "(propName, ArrayEditor schema (child h v propName)) \<in> set (ObjectField h parent v)"
proof -
  from assms have "(propName, schema) \<in> set (complexFields parent)"
    by (simp add: complexFields_def)
  then have "(\<lambda>(propName, propSchema).
        (propName, CollapsibleSection propSchema (child h v propName))) (propName, schema)
      \<in> set (ObjectField h parent v)"
    unfolding ObjectField_def set_append set_map by blast
  with assms(2) show ?thesis
    by (simp add: CollapsibleSection_def)
qed

lemma ObjectField_only:
  assumes "(propName, schema) \<in> set (entries parent)"
    and "getSchemaType schema = Some ''array''"
    and "distinct (map fst (entries parent))"
    and "(propName, e) \<in> set (ObjectField h parent v)"
  shows "e = ArrayEditor schema (child h v propName)"
proof -
  from assms(4) consider
    ps where "(propName, ps) \<in> set (simpleFields parent)"
      "e = FieldRenderer ps (child h v propName)"
    | ps where "(propName, ps) \<in> set (complexFields parent)"
      "e = CollapsibleSection ps (child h v propName)"
    by (auto simp: ObjectField_def)
  then show ?thesis
  proof cases
    case 1
    then have "(propName, ps) \<in> set (entries parent)"
      and n: "getSchemaType ps \<noteq> Some ''array''"
      by (auto simp: simpleFields_def Let_def)
    with assms(1,3) have "ps = schema"
      by (meson eq_key_imp_eq_value)
    with n assms(2) show ?thesis by simp
  next
    case 2
    then have "(propName, ps) \<in> set (entries parent)"
      by (auto simp: complexFields_def)
    with assms(1,3) have "ps = schema"
      by (meson eq_key_imp_eq_value)
    with 2 assms(2) show ?thesis
      by (simp add: CollapsibleSection_def)
  qed
qed

lemma ArrayField_items:
  assumes "getSchemaType (itemSchema parent) = Some ''array''"
  shows "ArrayField h parent v = map (ArrayEditor (itemSchema parent)) (arrayValue h v)"
  using assms by (simp add: ArrayField_def)

lemma entries_example_schema: "entries example_schema = properties example_schema"
  unfolding entries_def
  by (rule Object_entries_no_index)
     (simp add: properties_def example_schema_def arrayIndex_examples)

subsection \<open>Removing an array element\<close>

text \<open>
  C7: removing the index \<open>i\<close> of an array of \<open>n\<close> elements, \<open>i < n\<close>, passes on a new
  array of \<open>n - 1\<close> elements: the elements before \<open>i\<close> stay where they were, the elements
  after \<open>i\<close> move down by one position, and each is the value it was. The store the
  handler was given is a prefix of the store it leaves: no cell of it has changed.
\<close>

theorem remove_shifts_down:
  assumes "index < length (arrayValue h value)"
  shows "case handleRemove h value index of (h', r) \<Rightarrow>
           prefix h h' \<and> isArray h' r \<and>
           length (arrayValue h' r) = length (arrayValue h value) - 1 \<and>
           (\<forall>j < index. arrayValue h' r ! j = arrayValue h value ! j) \<and>
           (\<forall>j. index \<le> j \<and> j < length (arrayValue h value) - 1 \<longrightarrow>
                arrayValue h' r ! j = arrayValue h value ! Suc j)"
  using assms
  by (auto simp: handleRemove_result arrayValue_alloc isArray_alloc nth_append min_def)


theorem remove_shifts_down_witness:
  "(case handleRemove example_store (JRef 0) 1 of (h', r) \<Rightarrow>
      prefix example_store h' \<and> arrayValue h' r = [JStr ''x'', JStr ''z''])"
  using remove_shifts_down [of 1 example_store "JRef 0"]
  by (simp add: handleRemove_result arrayValue_alloc)
     (simp add: example_store_def arrayValue_def lookup_def)

subsection \<open>The array editor and values that are no arrays\<close>

text \<open>
  C6, as the code has it: a schema node whose declared type is \<^verbatim>\<open>array\<close>, as a name or as
  the first entry of a list, is handed to the array editor wherever an editor is chosen
  for a node below the root, and whatever the value is: by \<^verbatim>\<open>CollapsibleSection\<close>, by
  \<^verbatim>\<open>FieldRenderer\<close>, by the object editor for a property with that schema (its one editor,
  the names of the properties being distinct) and by the array editor for every element
  when it is the item schema. For a value that is not an array (\<^verbatim>\<open>null\<close>, say) the array
  editor reads no elements and renders no items, and appending passes on an array of one
  element, the default value of the item schema. At the root the form never renders an
  array editor: it renders an object editor when the schema has properties and nothing
  otherwise, whatever the value is.
\<close>

theorem array_kind_stable:
  assumes "s_type schema = Some (TypeName ''array'') \<or>
           (\<exists>ts. s_type schema = Some (TypeList (''array'' # ts)))"
  shows "CollapsibleSection schema value = ArrayEditor schema value \<and>
         FieldRenderer schema value = ArrayEditor schema value \<and>
         ((propName, schema) \<in> set (entries parent) \<longrightarrow>
            (propName, ArrayEditor schema (child h parentValue propName))
              \<in> set (ObjectField h parent parentValue) \<and>
            (distinct (map fst (entries parent)) \<longrightarrow>
               (\<forall>e. (propName, e) \<in> set (ObjectField h parent parentValue) \<longrightarrow>
                  e = ArrayEditor schema (child h parentValue propName)))) \<and>
         (itemSchema parent = schema \<longrightarrow>
            ArrayField h parent parentValue = map (ArrayEditor schema) (arrayValue h parentValue)) \<and>
         (\<not> isArray h value \<longrightarrow>
            arrayValue h value = [] \<and> ArrayField h schema value = [] \<and>
            (case handleAdd h schema value of (h', r) \<Rightarrow>
               isArray h' r \<and>
               arrayValue h' r = [snd (getDefaultValue h (itemSchema schema))])) \<and>
         SchemaForm schema value =
           (if s_properties schema = None then None else Some (ObjectEditor schema value))"
proof -
  from assms have t: "getSchemaType schema = Some ''array''"
    by (auto simp: getSchemaType_def truthy_type_def)
  have a: "CollapsibleSection schema value = ArrayEditor schema value"
    and b: "FieldRenderer schema value = ArrayEditor schema value"
    using t by (simp_all add: CollapsibleSection_def FieldRenderer_def)
  have c: "(propName, schema) \<in> set (entries parent) \<longrightarrow>
            (propName, ArrayEditor schema (child h parentValue propName))
              \<in> set (ObjectField h parent parentValue) \<and>
            (distinct (map fst (entries parent)) \<longrightarrow>
               (\<forall>e. (propName, e) \<in> set (ObjectField h parent parentValue) \<longrightarrow>
                  e = ArrayEditor schema (child h parentValue propName)))"
    using ObjectField_member [OF _ t] ObjectField_only [OF _ t] by blast
  have d: "itemSchema parent = schema \<longrightarrow>
            ArrayField h parent parentValue = map (ArrayEditor schema) (arrayValue h parentValue)"
    using t ArrayField_items [of parent h parentValue] by auto
  have e: "\<not> isArray h value \<longrightarrow>
            arrayValue h value = [] \<and> ArrayField h schema value = [] \<and>
            (case handleAdd h schema value of (h', r) \<Rightarrow>
               isArray h' r \<and>
               arrayValue h' r = [snd (getDefaultValue h (itemSchema schema))])"
    by (simp add: ArrayField_def not_isArray handleAdd_result arrayValue_alloc isArray_alloc)
  have f: "SchemaForm schema value =
           (if s_properties schema = None then None else Some (ObjectEditor schema value))"
    by (simp add: SchemaForm_def)
  show ?thesis
    by (intro conjI) (fact a b c d e f)+
qed

theorem array_kind_stable_witness:
  "FieldRenderer tags_schema JNull = ArrayEditor tags_schema JNull \<and>
   (''tags'', ArrayEditor tags_schema JUndefined)
     \<in> set (ObjectField example_store example_schema JNull) \<and>
   ArrayField nested_store nested_schema (JRef 2) =
     [ArrayEditor tags_schema JNull, ArrayEditor tags_schema (JRef 0)] \<and>
   arrayValue example_store JNull = [] \<and>
   ArrayField example_store tags_schema JNull = [] \<and>
   handleAdd example_store tags_schema JNull =
     (example_store @ [Array [JStr '''']], JRef 2) \<and>
   SchemaForm tags_schema JNull = None"
proof -
  have a: "s_type tags_schema = Some (TypeName ''array'') \<or>
           (\<exists>ts. s_type tags_schema = Some (TypeList (''array'' # ts)))"
    by (simp add: tags_schema_def)
  have m: "(''tags'', tags_schema) \<in> set (entries example_schema)"
    unfolding entries_example_schema
    by (simp add: properties_def example_schema_def tags_schema_def)
  have d: "distinct (map fst (entries example_schema))"
    unfolding entries_example_schema
    by (simp add: properties_def example_schema_def)
  have i: "itemSchema nested_schema = tags_schema"
    by (simp add: itemSchema_def nested_schema_def)
  have n: "\<not> isArray example_store JNull"
    by (simp add: isArray_def)
  have c: "child example_store JNull ''tags'' = JUndefined"
    by (simp add: child_def objValue_def field_def)
  have v: "arrayValue nested_store (JRef 2) = [JNull, JRef 0]"
    by (simp add: arrayValue_def nested_store_def example_store_def lookup_def)
  have g: "getDefaultValue example_store (itemSchema tags_schema) = (example_store, JStr '''')"
    by (simp add: getDefaultValue_def itemSchema_def tags_schema_def getSchemaType_def
        truthy_type_def field_def)
  have l: "length example_store = 2"
    by (simp add: example_store_def)
  have p: "s_properties tags_schema = None"
    by (simp add: tags_schema_def)
  from array_kind_stable [OF a, of JNull "''tags''" example_schema example_store JNull]
    array_kind_stable [OF a, of JNull "''tags''" nested_schema nested_store "JRef 2"]
  show ?thesis
    using m d i n
    by (simp add: c v g l p handleAdd_result)
qed

text \<open>
  C6 as the specification states it fails at the root: for the root schema
  \<^verbatim>\<open>{type: "array", items: {type: "string"}}\<close> the form renders nothing, for the value
  \<^verbatim>\<open>null\<close> as for an array.
\<close>

theorem array_root_not_array_editor:
  "s_type tags_schema = Some (TypeName ''array'') \<and>
   \<not> isArray example_store JNull \<and>
   SchemaForm tags_schema JNull = None \<and>
   SchemaForm tags_schema (JRef 0) = None"
  by (simp add: tags_schema_def SchemaForm_def isArray_def)

subsection \<open>Properties the schema does not know\<close>

text \<open>
  C3: when the value of an object editor has a property that the schema does not declare,
  the editor renders no field for it, and the object that a change of a declared property
  passes on has the undeclared property with the value it had; the store the handler was
  given is a prefix of the store it leaves, so what that value refers to is unchanged too.
\<close>

theorem unknown_property_preserved:
  assumes "propName \<in> fst ` set (entries schema)"
    and "unknown \<notin> fst ` set (entries schema)"
    and "objValue h value unknown = Some x"
  shows "unknown \<notin> fst ` set (ObjectField h schema value) \<and>
         (case handlePropertyChange h value propName propValue of (h', r) \<Rightarrow>
            prefix h h' \<and> objValue h' r unknown = Some x \<and>
            objValue h' r propName = Some propValue)"
proof -
  from assms(1,2) have "unknown \<noteq> propName" by auto
  moreover have "fst ` set (ObjectField h schema value) \<subseteq> fst ` set (entries schema)"
    by (force simp: ObjectField_def simpleFields_def complexFields_def)
  ultimately show ?thesis
    using assms(2,3) by (auto simp: handlePropertyChange_result objValue_alloc)
qed



theorem unknown_property_preserved_witness:
  "''internal'' \<notin> fst ` set (ObjectField example_store example_schema (JRef 1)) \<and>
   (case handlePropertyChange example_store (JRef 1) ''name'' (JStr ''m'') of (h', r) \<Rightarrow>
      prefix example_store h' \<and> objValue h' r ''internal'' = Some (JNum (Finite 7)) \<and>
      objValue h' r ''name'' = Some (JStr ''m''))"
  using unknown_property_preserved [of "''name''" example_schema "''internal''" example_store "JRef 1"
      "JNum (Finite 7)" "JStr ''m''"]
  unfolding entries_example_schema
  by (simp add: properties_def example_schema_def example_store_def objValue_def lookup_def)

subsection \<open>Structural sharing\<close>

text \<open>
  C2: each of the four handlers leaves every cell of the store it was given as it was (the
  store is a prefix of the one it returns) and passes on a reference to a cell that did not
  exist before. That cell holds what the editor read from its value, with the one change:
  the new property value under its name, the other properties as they were; the new item
  at its index, the other elements as they were; the elements followed by the default
  value; the elements without the one removed. The properties and elements are the same
  values, the same references where they are objects or arrays.

  Composed along a path from the root, in a closed store: when the editor at the end of
  the path \<open>p\<close> passes on \<open>new\<close> and the root receives \<open>root'\<close>, every position \<open>q\<close> that leaves
  \<open>p\<close> at one of its steps reads in \<open>root'\<close> the value it read in the root before.
\<close>

theorem edits_copy_and_share:
  "(case handlePropertyChange h value propName propValue of (h', r) \<Rightarrow>
      prefix h h' \<and> r = JRef (length h) \<and> objValue h' r propName = Some propValue \<and>
      (\<forall>k. k \<noteq> propName \<longrightarrow> objValue h' r k = objValue h value k)) \<and>
   (case handleItemChange h value index itemValue of (h', r) \<Rightarrow>
      prefix h h' \<and> r = JRef (length h) \<and> isArray h' r \<and>
      (index < length (arrayValue h value) \<longrightarrow>
         length (arrayValue h' r) = length (arrayValue h value) \<and>
         arrayValue h' r ! index = itemValue \<and>
         (\<forall>j < length (arrayValue h value).
            j \<noteq> index \<longrightarrow> arrayValue h' r ! j = arrayValue h value ! j))) \<and>
   (case handleAdd h schema value of (h', r) \<Rightarrow>
      prefix h h' \<and> r = JRef (length h' - 1) \<and> length h < length h' \<and> isArray h' r \<and>
      arrayValue h' r = arrayValue h value @ [snd (getDefaultValue h (itemSchema schema))]) \<and>
   (case handleRemove h value index of (h', r) \<Rightarrow>
      prefix h h' \<and> r = JRef (length h) \<and> isArray h' r \<and>
      arrayValue h' r = take index (arrayValue h value) @ drop (Suc index) (arrayValue h value)) \<and>
   (wf_store h \<and> wf_val h value \<and> wf_val h new \<and>
    propagate h value p new = Some (h'', root') \<and> off_path (map key p) q \<longrightarrow>
      prefix h h'' \<and> subtree h'' root' q = subtree h value q)"
proof (intro conjI)
  show "case handlePropertyChange h value propName propValue of (h', r) \<Rightarrow>
      prefix h h' \<and> r = JRef (length h) \<and> objValue h' r propName = Some propValue \<and>
      (\<forall>k. k \<noteq> propName \<longrightarrow> objValue h' r k = objValue h value k)"
    by (simp add: handlePropertyChange_result objValue_alloc)
  show "case handleItemChange h value index itemValue of (h', r) \<Rightarrow>
      prefix h h' \<and> r = JRef (length h) \<and> isArray h' r \<and>
      (index < length (arrayValue h value) \<longrightarrow>
         length (arrayValue h' r) = length (arrayValue h value) \<and>
         arrayValue h' r ! index = itemValue \<and>
         (\<forall>j < length (arrayValue h value).
            j \<noteq> index \<longrightarrow> arrayValue h' r ! j = arrayValue h value ! j))"
    by (simp add: handleItemChange_result arrayValue_alloc isArray_alloc assign_in_range)
  have "prefix h (fst (getDefaultValue h (itemSchema schema)))"
    by (rule getDefaultValue_prefix)
  moreover from this have "length h \<le> length (fst (getDefaultValue h (itemSchema schema)))"
    by (rule prefix_length_le)
  ultimately show "case handleAdd h schema value of (h', r) \<Rightarrow>
      prefix h h' \<and> r = JRef (length h' - 1) \<and> length h < length h' \<and> isArray h' r \<and>
      arrayValue h' r = arrayValue h value @ [snd (getDefaultValue h (itemSchema schema))]"
    by (simp add: handleAdd_result arrayValue_alloc isArray_alloc)
  show "case handleRemove h value index of (h', r) \<Rightarrow>
      prefix h h' \<and> r = JRef (length h) \<and> isArray h' r \<and>
      arrayValue h' r = take index (arrayValue h value) @ drop (Suc index) (arrayValue h value)"
    by (simp add: handleRemove_result arrayValue_alloc isArray_alloc)
  show "wf_store h \<and> wf_val h value \<and> wf_val h new \<and>
    propagate h value p new = Some (h'', root') \<and> off_path (map key p) q \<longrightarrow>
      prefix h h'' \<and> subtree h'' root' q = subtree h value q"
    using propagate_inv [of h new "value" p h'' root']
      propagate_frame [of h new "value" p h'' root' q] by blast
qed

theorem edits_copy_and_share_witness:
  "wf_store example_store \<and>
   (case propagate example_store (JRef 1) [Prop ''tags'', Item 1] (JStr ''w'') of
      None \<Rightarrow> False
    | Some (h', r) \<Rightarrow>
        prefix example_store h' \<and>
        subtree h' r [''tags'', ''1''] = JStr ''w'' \<and>
        subtree h' r [''tags'', ''0''] = JStr ''x'' \<and>
        subtree h' r [''tags'', ''2''] = JStr ''z'' \<and>
        subtree h' r [''name''] = JStr ''n'')"
proof -
  obtain h' r where p:
    "propagate example_store (JRef 1) [Prop ''tags'', Item 1] (JStr ''w'') = Some (h', r)"
    by (simp add: handlePropertyChange_result handleItemChange_result child_def
        example_store_def objValue_def arrayValue_def lookup_def field_def)
  have w: "wf_val example_store (JRef 1)" "wf_val example_store (JStr ''w'')"
    by (simp_all add: wf_val_def example_store_def)
  have k: "map key [Prop ''tags'', Item 1] = [''tags'', ''1'']"
    by (simp add: decimal.simps digit_def)
  have s: "subtree example_store (JRef 1) [''tags'', ''0''] = JStr ''x''"
    "subtree example_store (JRef 1) [''tags'', ''2''] = JStr ''z''"
    "subtree example_store (JRef 1) [''name''] = JStr ''n''"
    by (simp_all add: child_def example_store_def objValue_def lookup_def field_def
        index_props_def decimal.simps digit_def)
  have n: "subtree h' r [''tags'', ''1''] = JStr ''w''"
    using p
    by (auto simp: handlePropertyChange_result handleItemChange_result child_def
        example_store_def objValue_def arrayValue_def lookup_def field_def assign_def
        index_props_def decimal.simps digit_def nth_append)
  show ?thesis
    using edits_copy_and_share [of example_store _ _ "JRef 1" _ _ _ "JStr ''w''"
        "[Prop ''tags'', Item 1]" h' r "[''tags'', ''0'']"]
      edits_copy_and_share [of example_store _ _ "JRef 1" _ _ _ "JStr ''w''"
        "[Prop ''tags'', Item 1]" h' r "[''tags'', ''2'']"]
      edits_copy_and_share [of example_store _ _ "JRef 1" _ _ _ "JStr ''w''"
        "[Prop ''tags'', Item 1]" h' r "[''name'']"]
      wf_example_store w p k s n
    by simp
qed


end
